theory Spec2Isabelle
  imports Main "HOL-Library.Word"
begin

section \<open>JavaScript values\<close>

text \<open>
  A JavaScript string is a sequence of 16-bit code units; \<open>length\<close> counts code units,
  as \<open>String.prototype.length\<close> does. The literals of the source (property names,
  messages, alphabets) are ASCII and are written as HOL strings; \<open>js\<close> turns one into
  the JavaScript string with the same characters.
\<close>

type_synonym jschar = "16 word"
type_synonym jsstring = "jschar list"

definition ch :: "char \<Rightarrow> jschar" where
  "ch c = of_char c"

definition js :: "string \<Rightarrow> jsstring" where
  "js s = map ch s"

text \<open>
  The values a stored record can hold. Numbers are integers here; nested objects and
  arrays are not modelled (no operation of \<open>pkce.ts\<close> looks inside a field other than
  by its truthiness).
\<close>

datatype jsval = JUndefined | JNull | JBool bool | JNum int | JStr jsstring

text \<open>JavaScript's ToBoolean, which \<open>if (x)\<close> and \<open>!x\<close> apply.\<close>

fun truthy :: "jsval \<Rightarrow> bool" where
  "truthy JUndefined = False"
| "truthy JNull = False"
| "truthy (JBool b) = b"
| "truthy (JNum n) = (n \<noteq> 0)"
| "truthy (JStr s) = (s \<noteq> [])"

text \<open>
  An object is its own properties in insertion order. Reading a property that is not
  there gives \<open>undefined\<close>.
\<close>

type_synonym jsobj = "(string \<times> jsval) list"

definition getProp :: "jsobj \<Rightarrow> string \<Rightarrow> jsval" where
  "getProp obj k = (case map_of obj k of None \<Rightarrow> JUndefined | Some v \<Rightarrow> v)"

text \<open>\<open>obj.codeVerifier\<close> in a condition.\<close>

definition hasCodeVerifier :: "jsobj \<Rightarrow> bool" where
  "hasCodeVerifier obj = truthy (getProp obj ''codeVerifier'')"

text \<open>An optional string field (\<open>field?: string\<close>) in a condition.\<close>

fun truthyStr :: "jsstring option \<Rightarrow> bool" where
  "truthyStr None = False"
| "truthyStr (Some s) = (s \<noteq> [])"

text \<open>The string an optional field holds; used only where the field is truthy.\<close>

fun strOf :: "jsstring option \<Rightarrow> jsstring" where
  "strOf None = []"
| "strOf (Some s) = s"

section \<open>Errors\<close>

text \<open>
  \<open>AuthSdkError\<close> carries its message. \<open>URIError\<close> is what \<open>encodeURIComponent\<close>
  throws on an unpaired surrogate, \<open>InvalidCharacterError\<close> what \<open>btoa\<close> throws on a
  code unit above 255. \<open>TransportError\<close> stands for whatever the HTTP collaborator
  rejects with.
\<close>

datatype error =
    AuthSdkError string
  | URIError
  | InvalidCharacterError
  | TransportError string

section \<open>The world: two storage tiers and a trace of effects\<close>

datatype storage = LocalStorage | SessionStorage

record http_request =
  url :: jsstring
  http_method :: string
  args :: jsstring
  withCredentials :: bool
  headers :: "(string \<times> string) list"

datatype event =
    StorageGet storage
  | StorageSet storage jsobj
  | StorageClear storage
  | Warn string
  | HttpRequest http_request

text \<open>
  \<open>localStorage\<close> is the durable tier (tier A), \<open>sessionStorage\<close> the session tier
  (tier B). \<open>trace\<close> records, oldest first, every call made to a collaborator.
\<close>

record world =
  localStorage :: jsobj
  sessionStorage :: jsobj
  trace :: "event list"

definition emit :: "event \<Rightarrow> world \<Rightarrow> world" where
  "emit e w = w\<lparr>trace := trace w @ [e]\<rparr>"

text \<open>
  Modelled from the spec: the storage backend (\<open>storageUtil\<close>) is not part of
  \<open>pkce.ts\<close>. Per tier it offers \<open>getStorage() -> Record\<close>, \<open>setStorage(record)\<close> and
  \<open>clearStorage()\<close>; clearing an empty tier is a no-op and never an error; an empty tier
  reads as the empty record.
\<close>

definition tierOf :: "storage \<Rightarrow> world \<Rightarrow> jsobj" where
  "tierOf st w = (case st of LocalStorage \<Rightarrow> localStorage w | SessionStorage \<Rightarrow> sessionStorage w)"

definition putTier :: "storage \<Rightarrow> jsobj \<Rightarrow> world \<Rightarrow> world" where
  "putTier st obj w =
     (case st of LocalStorage \<Rightarrow> w\<lparr>localStorage := obj\<rparr>
               | SessionStorage \<Rightarrow> w\<lparr>sessionStorage := obj\<rparr>)"

definition storage_getStorage :: "storage \<Rightarrow> world \<Rightarrow> jsobj \<times> world" where
  "storage_getStorage st w = (tierOf st w, emit (StorageGet st) w)"

definition storage_setStorage :: "storage \<Rightarrow> jsobj \<Rightarrow> world \<Rightarrow> world" where
  "storage_setStorage st obj w = emit (StorageSet st obj) (putTier st obj w)"

definition storage_clearStorage :: "storage \<Rightarrow> world \<Rightarrow> world" where
  "storage_clearStorage st w = emit (StorageClear st) (putTier st [] w)"

text \<open>
  Modelled from the spec: \<open>warn\<close> comes from \<open>./util\<close>, which is not among the sources.
  A warning is logged and the flow proceeds.
\<close>

definition warn :: "string \<Rightarrow> world \<Rightarrow> world" where
  "warn msg w = emit (Warn msg) w"

section \<open>Flow Metadata Store\<close>

text \<open>
  The SDK object, as far as \<open>pkce.ts\<close> reads it: \<open>sdk.options.cookies\<close>. The cookie
  options are an object like any other: beside the cookie settings proper, which stay
  opaque, it may carry a \<open>preferLocalStorage\<close> property (\<open>JUndefined\<close> when it has none).
\<close>

record 'c storage_options =
  preferLocalStorage :: jsval
  cookieSettings :: 'c

record 'c sdk =
  cookies :: "'c storage_options"

text \<open>
  Modelled from the spec: \<open>getPKCEStorage\<close> belongs to the storage collaborator. The two
  tier instances are resolved by a configuration object: a truthy prefer-durable flag
  selects tier A, anything else tier B; the cookie settings are passed through opaquely.
\<close>

definition getPKCEStorage :: "'c storage_options \<Rightarrow> storage" where
  "getPKCEStorage options =
     (if truthy (preferLocalStorage options) then LocalStorage else SessionStorage)"

text \<open>
  \<open>getStorage(sdk, options?)\<close>: the second argument is either omitted (\<open>None\<close>) or
  \<open>{ preferLocalStorage: b }\<close> (\<open>Some b\<close>). \<open>Object.assign({}, sdk.options.cookies, options)\<close>
  lays it over the cookie options, so an omitted argument leaves the flag of the cookie
  options, if there is one, in force.
\<close>

definition getStorage :: "'c sdk \<Rightarrow> bool option \<Rightarrow> storage" where
  "getStorage s options =
     (let options =
        (case options of
           None \<Rightarrow> cookies s
         | Some b \<Rightarrow> (cookies s)\<lparr>preferLocalStorage := JBool b\<rparr>)
      in getPKCEStorage options)"

definition clearMeta :: "'c sdk \<Rightarrow> world \<Rightarrow> (error + unit) \<times> world" where
  "clearMeta s w0 =
     (let storage = getStorage s None;
          w1 = storage_clearStorage storage w0;
          storage = getStorage s (Some True);
          w2 = storage_clearStorage storage w1
      in (Inr (), w2))"

definition saveMeta :: "'c sdk \<Rightarrow> jsobj \<Rightarrow> world \<Rightarrow> (error + unit) \<times> world" where
  "saveMeta s meta w0 =
     (let storage = getStorage s (Some True);
          (obj, w1) = storage_getStorage storage w0;
          w2 = (if truthy (getProp obj ''codeVerifier'')
                then warn ''saveMeta: PKCE codeVerifier exists in localStorage. This may indicate an auth flow is already in progress.'' w1
                else w1);
          storage = getStorage s None;
          (obj, w3) = storage_getStorage storage w2;
          w4 = (if truthy (getProp obj ''codeVerifier'')
                then warn ''saveMeta: PKCE codeVerifier exists in sessionStorage. This may indicate an auth flow is already in progress.'' w3
                else w3)
      in case clearMeta s w4 of
           (Inl e, w5) \<Rightarrow> (Inl e, w5)
         | (Inr _, w5) \<Rightarrow> (Inr (), storage_setStorage storage meta w5))"

definition loadMeta :: "'c sdk \<Rightarrow> world \<Rightarrow> (error + jsobj) \<times> world" where
  "loadMeta s w0 =
     (let storage = getStorage s (Some True);
          (obj, w1) = storage_getStorage storage w0
      in if \<not> truthy (getProp obj ''codeVerifier'') then
           (let storage = getStorage s (Some False);
                (obj, w2) = storage_getStorage storage w1
            in if \<not> truthy (getProp obj ''codeVerifier'') then
                 (Inl (AuthSdkError ''Could not load PKCE codeVerifier from storage. This may indicate the auth flow has already completed or multiple auth flows are executing concurrently.''), w2)
               else (Inr obj, w2))
         else (Inr obj, w1))"

section \<open>Token Exchanger\<close>

record TokenParams =
  clientId :: "jsstring option"
  redirectUri :: "jsstring option"
  authorizationCode :: "jsstring option"
  interactionCode :: "jsstring option"
  codeVerifier :: "jsstring option"

definition validateOptions :: "TokenParams \<Rightarrow> error + unit" where
  \<open>validateOptions options =
     (if \<not> truthyStr (clientId options) then
        Inl (AuthSdkError ''A clientId must be specified in the OktaAuth constructor to get a token'')
      else if \<not> truthyStr (redirectUri options) then
        Inl (AuthSdkError ''The redirectUri passed to /authorize must also be passed to /token'')
      else if \<not> truthyStr (authorizationCode options) \<and> \<not> truthyStr (interactionCode options) then
        Inl (AuthSdkError ''An authorization code (returned from /authorize) must be passed to /token'')
      else if \<not> truthyStr (codeVerifier options) then
        Inl (AuthSdkError ''The "codeVerifier" (generated and saved by your app) must be passed to /token'')
      else Inr ())\<close>

section \<open>Builtins of the JavaScript runtime\<close>

text \<open>
  \<open>Number.prototype.toString(16)\<close> on a non-negative integer: lower-case hexadecimal
  digits, no leading zeros.
\<close>

definition hexDigitsLower :: string where
  "hexDigitsLower = ''0123456789abcdef''"

definition hexDigitsUpper :: string where
  "hexDigitsUpper = ''0123456789ABCDEF''"

fun toString16 :: "nat \<Rightarrow> string" where
  "toString16 n =
     (if n < 16 then [hexDigitsLower ! n]
      else toString16 (n div 16) @ [hexDigitsLower ! (n mod 16)])"

text \<open>\<open>s.substr(-k)\<close>: the last \<open>k\<close> characters, or all of \<open>s\<close> when it is shorter.\<close>

definition substrFromEnd :: "nat \<Rightarrow> 'a list \<Rightarrow> 'a list" where
  "substrFromEnd k s = drop (length s - k) s"

text \<open>UTF-16 surrogates, and the code point a surrogate pair stands for.\<close>

definition isHighSurrogate :: "jschar \<Rightarrow> bool" where
  "isHighSurrogate c = (0xD800 \<le> c \<and> c \<le> 0xDBFF)"

definition isLowSurrogate :: "jschar \<Rightarrow> bool" where
  "isLowSurrogate c = (0xDC00 \<le> c \<and> c \<le> 0xDFFF)"

definition pairCodePoint :: "jschar \<Rightarrow> jschar \<Rightarrow> nat" where
  "pairCodePoint hi lo = 0x10000 + (unat hi - 0xD800) * 0x400 + (unat lo - 0xDC00)"

text \<open>The UTF-8 octets of a code point.\<close>

definition utf8 :: "nat \<Rightarrow> nat list" where
  "utf8 cp =
     (if cp < 0x80 then [cp]
      else if cp < 0x800 then [0xC0 + cp div 0x40, 0x80 + cp mod 0x40]
      else if cp < 0x10000 then
        [0xE0 + cp div 0x1000, 0x80 + (cp div 0x40) mod 0x40, 0x80 + cp mod 0x40]
      else
        [0xF0 + cp div 0x40000, 0x80 + (cp div 0x1000) mod 0x40,
         0x80 + (cp div 0x40) mod 0x40, 0x80 + cp mod 0x40])"

text \<open>
  \<open>encodeURIComponent\<close> (ECMAScript \<open>Encode\<close> with the unreserved set
  \<open>A-Z a-z 0-9 - _ . ! ~ * ' ( )\<close>): an unreserved code unit is copied, any other code
  point becomes \<open>%XX\<close> for each of its UTF-8 octets, an unpaired surrogate throws
  \<open>URIError\<close>.
\<close>

definition uriUnreserved :: jsstring where
  "uriUnreserved =
     js ''ABCDEFGHIJKLMNOPQRSTUVWXYZabcdefghijklmnopqrstuvwxyz0123456789-_.!~*()'' @ [0x27]"

definition pctEscape :: "nat \<Rightarrow> jsstring" where
  "pctEscape octet =
     [ch CHR ''%'', ch (hexDigitsUpper ! (octet div 16)), ch (hexDigitsUpper ! (octet mod 16))]"

definition pctEscapes :: "nat list \<Rightarrow> jsstring" where
  "pctEscapes octets = concat (map pctEscape octets)"

fun encodeURIComponent :: "jsstring \<Rightarrow> error + jsstring" where
  "encodeURIComponent [] = Inr []"
| "encodeURIComponent (c # cs) =
     (if c \<in> set uriUnreserved then
        (case encodeURIComponent cs of Inl e \<Rightarrow> Inl e | Inr r \<Rightarrow> Inr (c # r))
      else if isHighSurrogate c then
        (case cs of
           [] \<Rightarrow> Inl URIError
         | d # ds \<Rightarrow>
             if isLowSurrogate d then
               (case encodeURIComponent ds of
                  Inl e \<Rightarrow> Inl e
                | Inr r \<Rightarrow> Inr (pctEscapes (utf8 (pairCodePoint c d)) @ r))
             else Inl URIError)
      else if isLowSurrogate c then Inl URIError
      else
        (case encodeURIComponent cs of
           Inl e \<Rightarrow> Inl e
         | Inr r \<Rightarrow> Inr (pctEscapes (utf8 (unat c)) @ r)))"

text \<open>
  \<open>new TextEncoder().encode(str)\<close>: the UTF-8 octets of the string as a \<open>Uint8Array\<close>,
  an unpaired surrogate replaced by U+FFFD.
\<close>

definition utf8Bytes :: "nat \<Rightarrow> 8 word list" where
  "utf8Bytes cp = map of_nat (utf8 cp)"

fun textEncode :: "jsstring \<Rightarrow> 8 word list" where
  "textEncode [] = []"
| "textEncode (c # cs) =
     (if isHighSurrogate c then
        (case cs of
           [] \<Rightarrow> utf8Bytes 0xFFFD
         | d # ds \<Rightarrow>
             if isLowSurrogate d then utf8Bytes (pairCodePoint c d) @ textEncode ds
             else utf8Bytes 0xFFFD @ textEncode cs)
      else if isLowSurrogate c then utf8Bytes 0xFFFD @ textEncode cs
      else utf8Bytes (unat c) @ textEncode cs)"

text \<open>
  \<open>btoa\<close>: standard base64 with padding of a string of code units below 256; a larger
  code unit throws \<open>InvalidCharacterError\<close>.
\<close>

definition base64Alphabet :: string where
  "base64Alphabet = ''ABCDEFGHIJKLMNOPQRSTUVWXYZabcdefghijklmnopqrstuvwxyz0123456789+/''"

definition b64digit :: "nat \<Rightarrow> jschar" where
  "b64digit n = ch (base64Alphabet ! n)"

fun base64 :: "nat list \<Rightarrow> jsstring" where
  "base64 [] = []"
| "base64 [a] = [b64digit (a div 4), b64digit ((a mod 4) * 16), ch CHR ''='', ch CHR ''='']"
| "base64 [a, b] =
     [b64digit (a div 4), b64digit ((a mod 4) * 16 + b div 16), b64digit ((b mod 16) * 4),
      ch CHR ''='']"
| "base64 (a # b # c # rest) =
     [b64digit (a div 4), b64digit ((a mod 4) * 16 + b div 16),
      b64digit ((b mod 16) * 4 + c div 64), b64digit (c mod 64)] @ base64 rest"

definition btoa :: "jsstring \<Rightarrow> error + jsstring" where
  "btoa s = (if \<exists>c \<in> set s. 0xFF < c then Inl InvalidCharacterError
             else Inr (base64 (map unat s)))"

section \<open>Verifier Generator\<close>

text \<open>
  Modelled from the spec: \<open>MIN_VERIFIER_LENGTH\<close> and \<open>MAX_VERIFIER_LENGTH\<close> come from
  \<open>./constants\<close>, which is not among the sources. A code verifier has 43 to 128
  characters after encoding.
\<close>

definition MIN_VERIFIER_LENGTH :: nat where
  "MIN_VERIFIER_LENGTH = 43"

definition MAX_VERIFIER_LENGTH :: nat where
  "MAX_VERIFIER_LENGTH = 128"

definition dec2hex :: "nat \<Rightarrow> jsstring" where
  "dec2hex dec = js (substrFromEnd 2 (''0'' @ toString16 dec))"

text \<open>
  The secure random source is a parameter: \<open>rnd i\<close> is the \<open>i\<close>-th byte it delivers, and
  \<open>crypto.getRandomValues\<close> fills a \<open>Uint8Array\<close> of \<open>n\<close> elements with the first \<open>n\<close>.
\<close>

definition getRandomValues :: "(nat \<Rightarrow> 8 word) \<Rightarrow> nat \<Rightarrow> 8 word list" where
  "getRandomValues rnd n = map rnd [0..<n]"

definition getRandomString :: "(nat \<Rightarrow> 8 word) \<Rightarrow> nat \<Rightarrow> jsstring" where
  "getRandomString rnd len =
     (let a = getRandomValues rnd ((len + 1) div 2);
          str = concat (map (\<lambda>b. dec2hex (unat b)) a)
      in take len str)"

definition generateVerifier :: "(nat \<Rightarrow> 8 word) \<Rightarrow> jsstring option \<Rightarrow> error + jsstring" where
  "generateVerifier rnd prefix =
     (let verifier = (if truthyStr prefix then strOf prefix else []);
          verifier = (if length verifier < MIN_VERIFIER_LENGTH
                      then verifier @ getRandomString rnd (MIN_VERIFIER_LENGTH - length verifier)
                      else verifier)
      in case encodeURIComponent verifier of
           Inl e \<Rightarrow> Inl e
         | Inr encoded \<Rightarrow> Inr (take MAX_VERIFIER_LENGTH encoded))"

section \<open>Challenge Deriver\<close>

text \<open>
  Modelled from the spec: \<open>stringToBase64Url\<close> comes from \<open>./util\<close>, which is not among the
  sources. It base64url-encodes the raw digest bytes: base64, then \<open>+\<close> to \<open>-\<close>, \<open>/\<close> to
  \<open>_\<close>, and no padding.
\<close>

definition replaceAll :: "jschar \<Rightarrow> jschar \<Rightarrow> jsstring \<Rightarrow> jsstring" where
  "replaceAll a b s = map (\<lambda>c. if c = a then b else c) s"

definition stripPadding :: "jsstring \<Rightarrow> jsstring" where
  "stripPadding s = rev (dropWhile (\<lambda>c. c = ch CHR ''='') (rev s))"

definition base64ToBase64Url :: "jsstring \<Rightarrow> jsstring" where
  "base64ToBase64Url b64 =
     stripPadding (replaceAll (ch CHR ''/'') (ch CHR ''_'') (replaceAll (ch CHR ''+'') (ch CHR ''-'') b64))"

definition stringToBase64Url :: "jsstring \<Rightarrow> error + jsstring" where
  "stringToBase64Url str =
     (case btoa str of Inl e \<Rightarrow> Inl e | Inr b64 \<Rightarrow> Inr (base64ToBase64Url b64))"

text \<open>
  The digest primitive (\<open>crypto.subtle.digest('SHA-256', _)\<close>) is a parameter from octets
  to octets. \<open>String.fromCharCode.apply(null, bytes)\<close> makes one code unit of each octet.
  The value is what the returned promise resolves to.
\<close>

definition computeChallenge :: "(8 word list \<Rightarrow> 8 word list) \<Rightarrow> jsstring \<Rightarrow> error + jsstring" where
  "computeChallenge digest str =
     (let buffer = textEncode str;
          arrayBuffer = digest buffer;
          hash = map ucast arrayBuffer;
          b64u = stringToBase64Url hash
      in b64u)"

section \<open>Token Exchanger: the request\<close>

text \<open>
  Modelled from the spec: \<open>removeNils\<close> and \<open>toQueryString\<close> come from \<open>./util\<close>, which is
  not among the sources. \<open>removeNils\<close> omits every parameter whose value is absent;
  \<open>toQueryString\<close> form-encodes the parameters in order, \<open>key=value\<close> joined by \<open>&\<close> with
  the value percent-encoded, behind a leading \<open>?\<close> (which \<open>getPostData\<close> slices off), and
  gives the empty string for no parameters.
\<close>

fun removeNils :: "(string \<times> 'a option) list \<Rightarrow> (string \<times> 'a) list" where
  "removeNils [] = []"
| "removeNils ((k, None) # rest) = removeNils rest"
| "removeNils ((k, Some v) # rest) = (k, v) # removeNils rest"

fun joinWith :: "jsstring \<Rightarrow> jsstring list \<Rightarrow> jsstring" where
  "joinWith sep [] = []"
| "joinWith sep [x] = x"
| "joinWith sep (x # y # ys) = x @ sep @ joinWith sep (y # ys)"

fun encodePairs :: "(string \<times> jsstring) list \<Rightarrow> error + jsstring list" where
  "encodePairs [] = Inr []"
| "encodePairs ((k, v) # rest) =
     (case encodeURIComponent v of
        Inl e \<Rightarrow> Inl e
      | Inr ev \<Rightarrow>
          (case encodePairs rest of
             Inl e \<Rightarrow> Inl e
           | Inr strs \<Rightarrow> Inr ((js k @ js ''='' @ ev) # strs)))"

definition toQueryString :: "(string \<times> jsstring) list \<Rightarrow> error + jsstring" where
  "toQueryString obj =
     (case encodePairs obj of
        Inl e \<Rightarrow> Inl e
      | Inr strs \<Rightarrow> Inr (if strs \<noteq> [] then js ''?'' @ joinWith (js ''&'') strs else []))"

text \<open>\<open>obj[k] = v\<close>: replaces the value of an existing property, appends a new one.\<close>

fun setProp :: "string \<Rightarrow> 'a \<Rightarrow> (string \<times> 'a) list \<Rightarrow> (string \<times> 'a) list" where
  "setProp k v [] = [(k, v)]"
| "setProp k v ((k', v') # rest) =
     (if k' = k then (k, v) # rest else (k', v') # setProp k v rest)"

text \<open>
  \<open>getPostParams\<close> is the first part of \<open>getPostData\<close>: the \<open>params\<close> object as it stands
  when it is handed to \<open>toQueryString\<close>.
\<close>

definition getPostParams :: "TokenParams \<Rightarrow> (string \<times> jsstring) list" where
  "getPostParams options =
     (let params = removeNils
            [(''client_id'', clientId options),
             (''redirect_uri'', redirectUri options),
             (''grant_type'', Some (if truthyStr (interactionCode options)
                                    then js ''interaction_code'' else js ''authorization_code'')),
             (''code_verifier'', codeVerifier options)]
      in if truthyStr (interactionCode options) then
           setProp ''interaction_code'' (strOf (interactionCode options)) params
         else if truthyStr (authorizationCode options) then
           setProp ''code'' (strOf (authorizationCode options)) params
         else params)"

definition getPostData :: "TokenParams \<Rightarrow> error + jsstring" where
  "getPostData options =
     (case toQueryString (getPostParams options) of
        Inl e \<Rightarrow> Inl e
      | Inr q \<Rightarrow> Inr (drop 1 q))"

record CustomUrls =
  tokenUrl :: jsstring

text \<open>
  The HTTP collaborator is a parameter: what the request resolves or rejects with.
  \<open>http.httpRequest\<close> records the request in the trace.
\<close>

definition http_httpRequest ::
  "(http_request \<Rightarrow> error + 'r) \<Rightarrow> 'c sdk \<Rightarrow> http_request \<Rightarrow> world \<Rightarrow> (error + 'r) \<times> world" where
  "http_httpRequest http s req w = (http req, emit (HttpRequest req) w)"

definition exchangeCodeForTokens ::
  "(http_request \<Rightarrow> error + 'r) \<Rightarrow> 'c sdk \<Rightarrow> TokenParams \<Rightarrow> CustomUrls \<Rightarrow> world
     \<Rightarrow> (error + 'r) \<times> world" where
  "exchangeCodeForTokens http s options urls w =
     (case validateOptions options of
        Inl e \<Rightarrow> (Inl e, w)
      | Inr _ \<Rightarrow>
          (case getPostData options of
             Inl e \<Rightarrow> (Inl e, w)
           | Inr data \<Rightarrow>
               http_httpRequest http s
                 \<lparr>url = tokenUrl urls, http_method = ''POST'', args = data,
                  withCredentials = False,
                  headers = [(''Content-Type'', ''application/x-www-form-urlencoded'')]\<rparr> w))"

section \<open>Named constants of the store\<close>

text \<open>The error \<open>loadMeta\<close> throws when neither tier holds a usable record.\<close>

definition NO_STATE :: error where
  "NO_STATE = AuthSdkError ''Could not load PKCE codeVerifier from storage. This may indicate the auth flow has already completed or multiple auth flows are executing concurrently.''"

text \<open>The two warnings of \<open>saveMeta\<close>.\<close>

definition WARN_LOCAL :: string where
  "WARN_LOCAL = ''saveMeta: PKCE codeVerifier exists in localStorage. This may indicate an auth flow is already in progress.''"

definition WARN_SESSION :: string where
  "WARN_SESSION = ''saveMeta: PKCE codeVerifier exists in sessionStorage. This may indicate an auth flow is already in progress.''"

text \<open>The storage state proper: what the two tiers hold, without the trace.\<close>

definition tiers :: "world \<Rightarrow> jsobj \<times> jsobj" where
  "tiers w = (localStorage w, sessionStorage w)"



text \<open>
  Whether the cookie options of the SDK carry a truthy \<open>preferLocalStorage\<close>, which
  \<open>getStorage(sdk)\<close> then inherits.
\<close>

definition cookiesPreferLocalStorage :: "'c sdk \<Rightarrow> bool" where
  "cookiesPreferLocalStorage s = truthy (preferLocalStorage (cookies s))"

text \<open>The events an operation adds to the trace, from the worlds before and after it.\<close>

definition newEvents :: "world \<Rightarrow> world \<Rightarrow> event list" where
  "newEvents w w' = drop (length (trace w)) (trace w')"

text \<open>A record whose \<open>codeVerifier\<close> is the empty string, or that has none.\<close>

definition emptyVerifier :: "jsobj \<Rightarrow> bool" where
  "emptyVerifier obj = (getProp obj ''codeVerifier'' = JStr [] \<or> map_of obj ''codeVerifier'' = None)"

text \<open>The four errors of \<open>validateOptions\<close>.\<close>

definition NO_CLIENT_ID :: error where
  "NO_CLIENT_ID = AuthSdkError ''A clientId must be specified in the OktaAuth constructor to get a token''"

definition NO_REDIRECT_URI :: error where
  "NO_REDIRECT_URI = AuthSdkError ''The redirectUri passed to /authorize must also be passed to /token''"

definition NO_CODE :: error where
  "NO_CODE = AuthSdkError ''An authorization code (returned from /authorize) must be passed to /token''"

definition NO_CODE_VERIFIER :: error where
  \<open>NO_CODE_VERIFIER = AuthSdkError ''The "codeVerifier" (generated and saved by your app) must be passed to /token''\<close>

text \<open>
  The characters \<open>encodeURIComponent\<close> can produce: the unreserved ones and \<open>%\<close> (the
  digits of an escape are unreserved themselves).
\<close>

definition uriEncoded :: "jschar set" where
  "uriEncoded = insert (ch CHR ''%'') (set uriUnreserved)"

text \<open>The characters a base64url string without padding must not contain.\<close>

definition base64UrlForbidden :: "jschar set" where
  "base64UrlForbidden = {ch CHR ''+'', ch CHR ''/'', ch CHR ''=''}"

section \<open>The store operations in closed form\<close>

lemma getStorage_simps:
  "getStorage s None = (if cookiesPreferLocalStorage s then LocalStorage else SessionStorage)"
  "getStorage s (Some True) = LocalStorage"
  "getStorage s (Some False) = SessionStorage"
  by (simp_all add: getStorage_def getPKCEStorage_def cookiesPreferLocalStorage_def)

lemma clearMeta_eq:
  "\<not> cookiesPreferLocalStorage s \<Longrightarrow>
   clearMeta s w = (Inr (), w\<lparr>localStorage := [], sessionStorage := [],
      trace := trace w @ [StorageClear SessionStorage, StorageClear LocalStorage]\<rparr>)"
  by (simp add: clearMeta_def getStorage_simps storage_clearStorage_def putTier_def emit_def)

text \<open>
  With \<open>preferLocalStorage\<close> in the cookie options both calls of \<open>getStorage\<close> in
  \<open>clearMeta\<close> resolve to tier A, and tier B is left alone.
\<close>

lemma clearMeta_cookie_flag_eq:
  "cookiesPreferLocalStorage s \<Longrightarrow>
   clearMeta s w = (Inr (), w\<lparr>localStorage := [],
      trace := trace w @ [StorageClear LocalStorage, StorageClear LocalStorage]\<rparr>)"
  by (simp add: clearMeta_def getStorage_simps storage_clearStorage_def putTier_def emit_def)

lemma loadMeta_eq:
  "loadMeta s w =
     (if hasCodeVerifier (localStorage w) then
        (Inr (localStorage w), w\<lparr>trace := trace w @ [StorageGet LocalStorage]\<rparr>)
      else if hasCodeVerifier (sessionStorage w) then
        (Inr (sessionStorage w),
         w\<lparr>trace := trace w @ [StorageGet LocalStorage, StorageGet SessionStorage]\<rparr>)
      else
        (Inl NO_STATE,
         w\<lparr>trace := trace w @ [StorageGet LocalStorage, StorageGet SessionStorage]\<rparr>))"
  by (simp add: loadMeta_def getStorage_simps storage_getStorage_def tierOf_def emit_def
      hasCodeVerifier_def NO_STATE_def)

lemma saveMeta_eq:
  "\<not> cookiesPreferLocalStorage s \<Longrightarrow>
   saveMeta s m w = (Inr (), w\<lparr>localStorage := [], sessionStorage := m,
      trace := trace w @ [StorageGet LocalStorage]
        @ (if hasCodeVerifier (localStorage w) then [Warn WARN_LOCAL] else [])
        @ [StorageGet SessionStorage]
        @ (if hasCodeVerifier (sessionStorage w) then [Warn WARN_SESSION] else [])
        @ [StorageClear SessionStorage, StorageClear LocalStorage, StorageSet SessionStorage m]\<rparr>)"
  by (simp add: saveMeta_def clearMeta_eq getStorage_simps storage_getStorage_def
      storage_setStorage_def tierOf_def putTier_def emit_def warn_def hasCodeVerifier_def
      WARN_LOCAL_def WARN_SESSION_def)

text \<open>
  With \<open>preferLocalStorage\<close> in the cookie options \<open>saveMeta\<close> reads tier A twice, clears
  it twice and writes the record there; tier B is neither read nor cleared.
\<close>

lemma saveMeta_cookie_flag_eq:
  "cookiesPreferLocalStorage s \<Longrightarrow>
   saveMeta s m w = (Inr (), w\<lparr>localStorage := m,
      trace := trace w @ [StorageGet LocalStorage]
        @ (if hasCodeVerifier (localStorage w) then [Warn WARN_LOCAL] else [])
        @ [StorageGet LocalStorage]
        @ (if hasCodeVerifier (localStorage w) then [Warn WARN_SESSION] else [])
        @ [StorageClear LocalStorage, StorageClear LocalStorage, StorageSet LocalStorage m]\<rparr>)"
  by (simp add: saveMeta_def clearMeta_cookie_flag_eq getStorage_simps storage_getStorage_def
      storage_setStorage_def tierOf_def putTier_def emit_def warn_def hasCodeVerifier_def
      WARN_LOCAL_def WARN_SESSION_def)

lemma validateOptions_not_NO_STATE: "validateOptions options \<noteq> Inl NO_STATE"
  by (simp add: validateOptions_def NO_STATE_def)

lemma hasCodeVerifier_nil [simp]: "\<not> hasCodeVerifier []"
  by (simp add: hasCodeVerifier_def getProp_def)

lemma emptyVerifier_not_has: "emptyVerifier obj \<Longrightarrow> \<not> hasCodeVerifier obj"
  by (auto simp: emptyVerifier_def hasCodeVerifier_def getProp_def)

lemma warnings_differ: "WARN_LOCAL \<noteq> WARN_SESSION"
  by (simp add: WARN_LOCAL_def WARN_SESSION_def)

section \<open>Flow Metadata Store: properties\<close>

text \<open>
  Claim C1. For every prior storage state, every \<lparr>cookies = \<lparr>preferLocalStorage = JUndefined, cookieSettings = ()\<rparr>\<rparr> configuration and every meta record
  \<open>m\<close> containing a \<open>codeVerifier\<close> \<open>v\<close> (a truthy one, which is how the code tells that a
  record has a \<open>codeVerifier\<close>), \<open>saveMeta(m)\<close> returns normally: a \<open>codeVerifier\<close> found in a
  tier it inspects only adds a warning to the trace. A \<open>loadMeta()\<close> called immediately
  afterwards returns a record whose \<open>codeVerifier\<close> is \<open>v\<close> and in which every field of \<open>m\<close>
  reads as it does in \<open>m\<close>, whatever the tiers held before.
\<close>

theorem saveMeta_loadMeta_roundtrip:
  assumes "getProp m ''codeVerifier'' = v" and "truthy v"
  shows "fst (saveMeta s m w) = Inr ()
       \<and> (hasCodeVerifier (localStorage w)
            \<longrightarrow> Warn WARN_LOCAL \<in> set (newEvents w (snd (saveMeta s m w))))
       \<and> (hasCodeVerifier (tierOf (getStorage s None) w)
            \<longrightarrow> Warn WARN_SESSION \<in> set (newEvents w (snd (saveMeta s m w))))
       \<and> (\<exists>r. fst (loadMeta s (snd (saveMeta s m w))) = Inr r
              \<and> getProp r ''codeVerifier'' = v \<and> (\<forall>k. getProp r k = getProp m k))"
proof -
  from assms have m: "hasCodeVerifier m"
    by (simp add: hasCodeVerifier_def)
  show ?thesis
  proof (cases "cookiesPreferLocalStorage s")
    case True
    with m assms show ?thesis
      by (simp add: saveMeta_cookie_flag_eq loadMeta_eq getStorage_simps tierOf_def newEvents_def)
  next
    case False
    with m assms show ?thesis
      by (simp add: saveMeta_eq loadMeta_eq getStorage_simps tierOf_def newEvents_def)
  qed
qed

theorem saveMeta_loadMeta_roundtrip_witness:
  "getProp [(''codeVerifier'', JStr (js ''new'')), (''state'', JStr (js ''xyz''))] ''codeVerifier''
     = JStr (js ''new'')
   \<and> truthy (JStr (js ''new''))
   \<and> fst (saveMeta \<lparr>cookies = \<lparr>preferLocalStorage = JUndefined, cookieSettings = ()\<rparr>\<rparr>
        [(''codeVerifier'', JStr (js ''new'')), (''state'', JStr (js ''xyz''))]
        \<lparr>localStorage = [(''codeVerifier'', JStr (js ''stale''))], sessionStorage = [], trace = []\<rparr>)
     = Inr ()
   \<and> (\<exists>r. fst (loadMeta \<lparr>cookies = \<lparr>preferLocalStorage = JUndefined, cookieSettings = ()\<rparr>\<rparr>
          (snd (saveMeta \<lparr>cookies = \<lparr>preferLocalStorage = JUndefined, cookieSettings = ()\<rparr>\<rparr>
            [(''codeVerifier'', JStr (js ''new'')), (''state'', JStr (js ''xyz''))]
            \<lparr>localStorage = [(''codeVerifier'', JStr (js ''stale''))], sessionStorage = [],
             trace = []\<rparr>))) = Inr r
        \<and> getProp r ''codeVerifier'' = JStr (js ''new'')
        \<and> getProp r ''state'' = JStr (js ''xyz''))"
proof -
  let ?m = "[(''codeVerifier'', JStr (js ''new'')), (''state'', JStr (js ''xyz''))]"
  let ?s = "\<lparr>cookies = \<lparr>preferLocalStorage = JUndefined, cookieSettings = ()\<rparr>\<rparr>"
  let ?w = "\<lparr>localStorage = [(''codeVerifier'', JStr (js ''stale''))], sessionStorage = [],
             trace = []\<rparr>"
  have g: "getProp ?m ''codeVerifier'' = JStr (js ''new'')"
    by (simp add: getProp_def)
  have t: "truthy (JStr (js ''new''))"
    by (simp add: js_def)
  have st: "getProp ?m ''state'' = JStr (js ''xyz'')"
    by (simp add: getProp_def)
  from saveMeta_loadMeta_roundtrip [OF g t, of ?s ?w]
  obtain r where ok: "fst (saveMeta ?s ?m ?w) = Inr ()"
    and r: "fst (loadMeta ?s (snd (saveMeta ?s ?m ?w))) = Inr r"
      "getProp r ''codeVerifier'' = JStr (js ''new'')"
      "\<forall>k. getProp r k = getProp ?m k"
    by blast
  from r(3) st have "getProp r ''state'' = JStr (js ''xyz'')"
    by simp
  with r(1,2) have "\<exists>r. fst (loadMeta ?s (snd (saveMeta ?s ?m ?w))) = Inr r
        \<and> getProp r ''codeVerifier'' = JStr (js ''new'')
        \<and> getProp r ''state'' = JStr (js ''xyz'')"
    by blast
  with g t ok show ?thesis
    by (intro conjI)
qed

text \<open>
  Claim C2. \<open>loadMeta\<close> reads tier A (\<open>localStorage\<close>) first and returns its record if that
  record has a \<open>codeVerifier\<close>; otherwise it reads tier B (\<open>sessionStorage\<close>) and returns
  its record if that one has a \<open>codeVerifier\<close>; otherwise it throws the state-not-found
  error, which no check of \<open>validateOptions\<close> raises and which is not a transport error.
\<close>

theorem loadMeta_tier_precedence:
  "fst (loadMeta s w) =
     (if hasCodeVerifier (localStorage w) then Inr (localStorage w)
      else if hasCodeVerifier (sessionStorage w) then Inr (sessionStorage w)
      else Inl NO_STATE)
   \<and> trace (snd (loadMeta s w)) = trace w @
        (if hasCodeVerifier (localStorage w) then [StorageGet LocalStorage]
         else [StorageGet LocalStorage, StorageGet SessionStorage])
   \<and> validateOptions options \<noteq> Inl NO_STATE
   \<and> NO_STATE \<noteq> TransportError t"
  by (simp add: loadMeta_eq validateOptions_not_NO_STATE) (simp add: NO_STATE_def)

theorem loadMeta_tier_precedence_witness:
  "fst (loadMeta \<lparr>cookies = \<lparr>preferLocalStorage = JUndefined, cookieSettings = ()\<rparr>\<rparr> \<lparr>localStorage = [(''codeVerifier'', JStr (js ''a''))],
          sessionStorage = [(''codeVerifier'', JStr (js ''b''))], trace = []\<rparr>)
       = Inr [(''codeVerifier'', JStr (js ''a''))]
   \<and> fst (loadMeta \<lparr>cookies = \<lparr>preferLocalStorage = JUndefined, cookieSettings = ()\<rparr>\<rparr> \<lparr>localStorage = [],
          sessionStorage = [(''codeVerifier'', JStr (js ''b''))], trace = []\<rparr>)
       = Inr [(''codeVerifier'', JStr (js ''b''))]
   \<and> fst (loadMeta \<lparr>cookies = \<lparr>preferLocalStorage = JUndefined, cookieSettings = ()\<rparr>\<rparr> \<lparr>localStorage = [], sessionStorage = [], trace = []\<rparr>)
       = Inl NO_STATE"
  using loadMeta_tier_precedence [of "\<lparr>cookies = \<lparr>preferLocalStorage = JUndefined, cookieSettings = ()\<rparr>\<rparr>" "\<lparr>localStorage = [(''codeVerifier'', JStr (js ''a''))],
          sessionStorage = [(''codeVerifier'', JStr (js ''b''))], trace = []\<rparr>"]
    loadMeta_tier_precedence [of "\<lparr>cookies = \<lparr>preferLocalStorage = JUndefined, cookieSettings = ()\<rparr>\<rparr>" "\<lparr>localStorage = [],
          sessionStorage = [(''codeVerifier'', JStr (js ''b''))], trace = []\<rparr>"]
    loadMeta_tier_precedence [of "\<lparr>cookies = \<lparr>preferLocalStorage = JUndefined, cookieSettings = ()\<rparr>\<rparr>" "\<lparr>localStorage = [], sessionStorage = [], trace = []\<rparr>"]
  by (simp add: hasCodeVerifier_def getProp_def js_def)







text \<open>
  Claim C9. \<open>loadMeta\<close> never modifies a tier, whether it returns a record or throws: both
  tiers hold afterwards what they held before, and a second \<open>loadMeta\<close> right after the
  first has the same outcome.
\<close>

theorem loadMeta_frame:
  "tiers (snd (loadMeta s w)) = tiers w
   \<and> localStorage (snd (loadMeta s w)) = localStorage w
   \<and> sessionStorage (snd (loadMeta s w)) = sessionStorage w
   \<and> fst (loadMeta s (snd (loadMeta s w))) = fst (loadMeta s w)"
  by (simp add: loadMeta_eq tiers_def)

theorem loadMeta_frame_witness:
  "fst (loadMeta \<lparr>cookies = \<lparr>preferLocalStorage = JUndefined, cookieSettings = ()\<rparr>\<rparr> (snd (loadMeta \<lparr>cookies = \<lparr>preferLocalStorage = JUndefined, cookieSettings = ()\<rparr>\<rparr>
     \<lparr>localStorage = [], sessionStorage = [(''codeVerifier'', JStr (js ''b''))], trace = []\<rparr>)))
   = Inr [(''codeVerifier'', JStr (js ''b''))]"
  using loadMeta_frame [of "\<lparr>cookies = \<lparr>preferLocalStorage = JUndefined, cookieSettings = ()\<rparr>\<rparr>"
     "\<lparr>localStorage = [], sessionStorage = [(''codeVerifier'', JStr (js ''b''))], trace = []\<rparr>"]
  by (simp add: loadMeta_eq hasCodeVerifier_def getProp_def js_def)

text \<open>
  Claim C10. A stored record whose \<open>codeVerifier\<close> is the empty string or absent counts as
  no record. \<open>loadMeta\<close> skips it in tier A and decides on tier B alone, and throws the
  state-not-found error when both tiers hold such a record. \<open>saveMeta\<close> emits no
  flow-in-progress warning for it: neither of its two reads warns when the record read
  is such a record, no warning at all is emitted when both tiers hold such records, and
  the events of \<open>saveMeta\<close> are the same as if the tier holding such a record were empty.
  Which tier the second read of \<open>saveMeta\<close> addresses is \<open>getStorage(sdk)\<close>: tier B unless the
  cookie options carry a truthy \<open>preferLocalStorage\<close>.
\<close>

theorem empty_codeVerifier_is_no_record:
  "(emptyVerifier (localStorage w) \<longrightarrow>
      fst (loadMeta s w) =
        (if hasCodeVerifier (sessionStorage w) then Inr (sessionStorage w) else Inl NO_STATE))
   \<and> (emptyVerifier (localStorage w) \<and> emptyVerifier (sessionStorage w) \<longrightarrow>
      fst (loadMeta s w) = Inl NO_STATE)
   \<and> (emptyVerifier (localStorage w) \<longrightarrow>
        Warn WARN_LOCAL \<notin> set (newEvents w (snd (saveMeta s m w))))
   \<and> (emptyVerifier (tierOf (getStorage s None) w) \<longrightarrow>
        Warn WARN_SESSION \<notin> set (newEvents w (snd (saveMeta s m w))))
   \<and> (\<not> cookiesPreferLocalStorage s \<and> emptyVerifier (sessionStorage w) \<longrightarrow>
        Warn WARN_SESSION \<notin> set (newEvents w (snd (saveMeta s m w))))
   \<and> (emptyVerifier (localStorage w) \<and> emptyVerifier (sessionStorage w) \<longrightarrow>
        (\<forall>msg. Warn msg \<notin> set (newEvents w (snd (saveMeta s m w)))))
   \<and> (emptyVerifier (localStorage w) \<longrightarrow>
        newEvents w (snd (saveMeta s m w))
          = newEvents (w\<lparr>localStorage := []\<rparr>) (snd (saveMeta s m (w\<lparr>localStorage := []\<rparr>))))
   \<and> (emptyVerifier (sessionStorage w) \<longrightarrow>
        newEvents w (snd (saveMeta s m w))
          = newEvents (w\<lparr>sessionStorage := []\<rparr>) (snd (saveMeta s m (w\<lparr>sessionStorage := []\<rparr>))))"
proof (cases "cookiesPreferLocalStorage s")
  case True
  then show ?thesis
    using warnings_differ
    by (auto simp: saveMeta_cookie_flag_eq loadMeta_eq getStorage_simps tierOf_def newEvents_def
        dest: emptyVerifier_not_has)
next
  case False
  then show ?thesis
    using warnings_differ
    by (auto simp: saveMeta_eq loadMeta_eq getStorage_simps tierOf_def newEvents_def
        dest: emptyVerifier_not_has)
qed

theorem empty_codeVerifier_is_no_record_witness:
  "emptyVerifier [(''codeVerifier'', JStr [])] \<and> emptyVerifier [(''state'', JStr (js ''x''))]
   \<and> fst (loadMeta \<lparr>cookies = \<lparr>preferLocalStorage = JUndefined, cookieSettings = ()\<rparr>\<rparr> \<lparr>localStorage = [(''codeVerifier'', JStr [])],
          sessionStorage = [(''codeVerifier'', JStr (js ''b''))], trace = []\<rparr>)
       = Inr [(''codeVerifier'', JStr (js ''b''))]
   \<and> fst (loadMeta \<lparr>cookies = \<lparr>preferLocalStorage = JUndefined, cookieSettings = ()\<rparr>\<rparr> \<lparr>localStorage = [(''codeVerifier'', JStr [])],
          sessionStorage = [(''state'', JStr (js ''x''))], trace = []\<rparr>) = Inl NO_STATE
   \<and> Warn WARN_SESSION \<notin> set (newEvents
          \<lparr>localStorage = [(''codeVerifier'', JStr [])],
           sessionStorage = [(''state'', JStr (js ''x''))], trace = []\<rparr>
          (snd (saveMeta \<lparr>cookies = \<lparr>preferLocalStorage = JUndefined, cookieSettings = ()\<rparr>\<rparr> [] \<lparr>localStorage = [(''codeVerifier'', JStr [])],
           sessionStorage = [(''state'', JStr (js ''x''))], trace = []\<rparr>)))"
proof -
  have e: "emptyVerifier [(''codeVerifier'', JStr [])]" "emptyVerifier [(''state'', JStr (js ''x''))]"
    by (simp_all add: emptyVerifier_def getProp_def)
  have d: "\<not> cookiesPreferLocalStorage \<lparr>cookies = \<lparr>preferLocalStorage = JUndefined, cookieSettings = ()\<rparr>\<rparr>"
    by (simp add: cookiesPreferLocalStorage_def)
  from empty_codeVerifier_is_no_record [of "\<lparr>localStorage = [(''codeVerifier'', JStr [])],
          sessionStorage = [(''codeVerifier'', JStr (js ''b''))], trace = []\<rparr>" "\<lparr>cookies = \<lparr>preferLocalStorage = JUndefined, cookieSettings = ()\<rparr>\<rparr>" "[]"]
    empty_codeVerifier_is_no_record [of "\<lparr>localStorage = [(''codeVerifier'', JStr [])],
          sessionStorage = [(''state'', JStr (js ''x''))], trace = []\<rparr>" "\<lparr>cookies = \<lparr>preferLocalStorage = JUndefined, cookieSettings = ()\<rparr>\<rparr>" "[]"]
  show ?thesis
    using e d by (simp add: saveMeta_eq newEvents_def warnings_differ)
      (simp add: hasCodeVerifier_def getProp_def js_def)
qed

section \<open>Token Exchanger: properties\<close>

lemma js_Nil_iff [simp]: "js s = [] \<longleftrightarrow> s = []"
  by (simp add: js_def)

lemma validateOptions_Inr_iff:
  "validateOptions options = Inr () \<longleftrightarrow>
     truthyStr (clientId options) \<and> truthyStr (redirectUri options)
     \<and> (truthyStr (authorizationCode options) \<or> truthyStr (interactionCode options))
     \<and> truthyStr (codeVerifier options)"
  by (auto simp: validateOptions_def)

lemma truthyStr_strOf: "truthyStr x \<Longrightarrow> x = Some (strOf x) \<and> strOf x \<noteq> []"
  by (cases x) simp_all

text \<open>
  Claim C3. \<open>exchangeCodeForTokens\<close> validates its params fail-fast in a fixed order:
  missing \<open>clientId\<close>, then missing \<open>redirectUri\<close>, then missing both
  \<open>authorizationCode\<close> and \<open>interactionCode\<close>, then missing \<open>codeVerifier\<close>. The
  first violated check alone decides the error, the four errors are distinct, and a
  failed validation (a missing \<open>clientId\<close> in particular) leaves the world, and so the
  trace of HTTP requests, as it was.
\<close>

theorem validateOptions_fail_fast:
  "(\<not> truthyStr (clientId options) \<longrightarrow> validateOptions options = Inl NO_CLIENT_ID)
   \<and> (truthyStr (clientId options) \<and> \<not> truthyStr (redirectUri options)
        \<longrightarrow> validateOptions options = Inl NO_REDIRECT_URI)
   \<and> (truthyStr (clientId options) \<and> truthyStr (redirectUri options)
        \<and> \<not> truthyStr (authorizationCode options) \<and> \<not> truthyStr (interactionCode options)
        \<longrightarrow> validateOptions options = Inl NO_CODE)
   \<and> (truthyStr (clientId options) \<and> truthyStr (redirectUri options)
        \<and> (truthyStr (authorizationCode options) \<or> truthyStr (interactionCode options))
        \<and> \<not> truthyStr (codeVerifier options)
        \<longrightarrow> validateOptions options = Inl NO_CODE_VERIFIER)
   \<and> (truthyStr (clientId options) \<and> truthyStr (redirectUri options)
        \<and> (truthyStr (authorizationCode options) \<or> truthyStr (interactionCode options))
        \<and> truthyStr (codeVerifier options)
        \<longrightarrow> validateOptions options = Inr ())
   \<and> distinct [NO_CLIENT_ID, NO_REDIRECT_URI, NO_CODE, NO_CODE_VERIFIER]
   \<and> (\<forall>e. validateOptions options = Inl e
        \<longrightarrow> exchangeCodeForTokens http s options urls w = (Inl e, w))
   \<and> (\<not> truthyStr (clientId options)
        \<longrightarrow> exchangeCodeForTokens http s options urls w = (Inl NO_CLIENT_ID, w))"
proof (intro conjI)
  show "distinct [NO_CLIENT_ID, NO_REDIRECT_URI, NO_CODE, NO_CODE_VERIFIER]"
    by (simp add: NO_CLIENT_ID_def NO_REDIRECT_URI_def NO_CODE_def NO_CODE_VERIFIER_def)
  show "\<forall>e. validateOptions options = Inl e
        \<longrightarrow> exchangeCodeForTokens http s options urls w = (Inl e, w)"
    by (simp add: exchangeCodeForTokens_def)
  show "\<not> truthyStr (clientId options)
        \<longrightarrow> exchangeCodeForTokens http s options urls w = (Inl NO_CLIENT_ID, w)"
    by (simp add: exchangeCodeForTokens_def validateOptions_def NO_CLIENT_ID_def)
qed (simp_all add: validateOptions_def NO_CLIENT_ID_def NO_REDIRECT_URI_def NO_CODE_def
       NO_CODE_VERIFIER_def)

theorem validateOptions_fail_fast_witness:
  "validateOptions \<lparr>clientId = None, redirectUri = None, authorizationCode = None,
      interactionCode = None, codeVerifier = None\<rparr> = Inl NO_CLIENT_ID
   \<and> validateOptions \<lparr>clientId = Some (js ''abc''), redirectUri = Some [], authorizationCode = None,
      interactionCode = None, codeVerifier = None\<rparr> = Inl NO_REDIRECT_URI
   \<and> validateOptions \<lparr>clientId = Some (js ''abc''), redirectUri = Some (js ''https://app/cb''),
      authorizationCode = Some (js ''code123''), interactionCode = None, codeVerifier = None\<rparr>
      = Inl NO_CODE_VERIFIER
   \<and> exchangeCodeForTokens (\<lambda>req. Inr ()) \<lparr>cookies = \<lparr>preferLocalStorage = JUndefined, cookieSettings = ()\<rparr>\<rparr>
        \<lparr>clientId = None, redirectUri = None, authorizationCode = None,
         interactionCode = None, codeVerifier = None\<rparr> \<lparr>tokenUrl = js ''https://idp/token''\<rparr>
        \<lparr>localStorage = [], sessionStorage = [], trace = []\<rparr>
      = (Inl NO_CLIENT_ID, \<lparr>localStorage = [], sessionStorage = [], trace = []\<rparr>)"
  using validateOptions_fail_fast [of "\<lparr>clientId = None, redirectUri = None, authorizationCode = None,
      interactionCode = None, codeVerifier = None\<rparr>" "\<lambda>req. Inr ()" "\<lparr>cookies = \<lparr>preferLocalStorage = JUndefined, cookieSettings = ()\<rparr>\<rparr>"
      "\<lparr>tokenUrl = js ''https://idp/token''\<rparr>" "\<lparr>localStorage = [], sessionStorage = [], trace = []\<rparr>"]
    validateOptions_fail_fast [of "\<lparr>clientId = Some (js ''abc''), redirectUri = Some [], authorizationCode = None,
      interactionCode = None, codeVerifier = None\<rparr>" "\<lambda>req. Inr ()" "\<lparr>cookies = \<lparr>preferLocalStorage = JUndefined, cookieSettings = ()\<rparr>\<rparr>"
      "\<lparr>tokenUrl = js ''https://idp/token''\<rparr>" "\<lparr>localStorage = [], sessionStorage = [], trace = []\<rparr>"]
    validateOptions_fail_fast [of "\<lparr>clientId = Some (js ''abc''), redirectUri = Some (js ''https://app/cb''),
      authorizationCode = Some (js ''code123''), interactionCode = None, codeVerifier = None\<rparr>"
      "\<lambda>req. Inr ()" "\<lparr>cookies = \<lparr>preferLocalStorage = JUndefined, cookieSettings = ()\<rparr>\<rparr>"
      "\<lparr>tokenUrl = js ''https://idp/token''\<rparr>" "\<lparr>localStorage = [], sessionStorage = [], trace = []\<rparr>"]
  by (simp add: js_def)

lemma getPostParams_interaction:
  assumes "validateOptions options = Inr ()" and "truthyStr (interactionCode options)"
  shows "getPostParams options =
     [(''client_id'', strOf (clientId options)),
      (''redirect_uri'', strOf (redirectUri options)),
      (''grant_type'', js ''interaction_code''),
      (''code_verifier'', strOf (codeVerifier options)),
      (''interaction_code'', strOf (interactionCode options))]"
proof -
  from assms(1) have "clientId options = Some (strOf (clientId options))"
    "redirectUri options = Some (strOf (redirectUri options))"
    "codeVerifier options = Some (strOf (codeVerifier options))"
    by (simp_all add: validateOptions_Inr_iff truthyStr_strOf)
  then obtain a b c where "clientId options = Some a" "redirectUri options = Some b" "codeVerifier options = Some c"
    by blast
  with assms(2) show ?thesis
    by (simp add: getPostParams_def)
qed

lemma getPostParams_authorization:
  assumes "validateOptions options = Inr ()" and "\<not> truthyStr (interactionCode options)"
  shows "getPostParams options =
     [(''client_id'', strOf (clientId options)),
      (''redirect_uri'', strOf (redirectUri options)),
      (''grant_type'', js ''authorization_code''),
      (''code_verifier'', strOf (codeVerifier options)),
      (''code'', strOf (authorizationCode options))]"
proof -
  from assms(1) have "clientId options = Some (strOf (clientId options))"
    "redirectUri options = Some (strOf (redirectUri options))"
    "codeVerifier options = Some (strOf (codeVerifier options))"
    by (simp_all add: validateOptions_Inr_iff truthyStr_strOf)
  then obtain a b c where "clientId options = Some a" "redirectUri options = Some b" "codeVerifier options = Some c"
    by blast
  moreover from assms have "truthyStr (authorizationCode options)"
    by (simp add: validateOptions_Inr_iff)
  ultimately show ?thesis using assms(2)
    by (simp add: getPostParams_def)
qed


lemma encodeURIComponent_grant_types:
  "encodeURIComponent (js ''interaction_code'') = Inr (js ''interaction_code'')"
  "encodeURIComponent (js ''authorization_code'') = Inr (js ''authorization_code'')"
  by (simp_all add: js_def ch_def uriUnreserved_def)

text \<open>
  Claim C4. For validated params the request body holds \<open>client_id\<close>, \<open>redirect_uri\<close>,
  \<open>grant_type\<close> and \<open>code_verifier\<close>, then one code parameter: with \<open>interactionCode\<close>
  set, \<open>grant_type=interaction_code\<close> and \<open>interaction_code\<close>, and no \<open>code\<close> even when
  \<open>authorizationCode\<close> is set as well; otherwise \<open>authorizationCode\<close> is set,
  \<open>grant_type=authorization_code\<close> and \<open>code\<close>. Every parameter in the body has a
  non-empty value. The body is the \<open>key=value\<close> pairs in this order joined by \<open>&\<close>, each
  value percent-encoded, and it is what \<open>exchangeCodeForTokens\<close> posts to the token
  endpoint.
\<close>

theorem getPostData_body:
  assumes "validateOptions options = Inr ()"
  shows "(truthyStr (interactionCode options) \<longrightarrow>
            getPostParams options =
              [(''client_id'', strOf (clientId options)),
               (''redirect_uri'', strOf (redirectUri options)),
               (''grant_type'', js ''interaction_code''),
               (''code_verifier'', strOf (codeVerifier options)),
               (''interaction_code'', strOf (interactionCode options))]
          \<and> (\<forall>a b c d.
                encodeURIComponent (strOf (clientId options)) = Inr a
              \<and> encodeURIComponent (strOf (redirectUri options)) = Inr b
              \<and> encodeURIComponent (strOf (codeVerifier options)) = Inr c
              \<and> encodeURIComponent (strOf (interactionCode options)) = Inr d
              \<longrightarrow> getPostData options =
                    Inr (js ''client_id='' @ a @ js ''&redirect_uri='' @ b
                         @ js ''&grant_type=interaction_code&code_verifier='' @ c
                         @ js ''&interaction_code='' @ d)))
       \<and> (\<not> truthyStr (interactionCode options) \<longrightarrow>
            truthyStr (authorizationCode options)
          \<and> getPostParams options =
              [(''client_id'', strOf (clientId options)),
               (''redirect_uri'', strOf (redirectUri options)),
               (''grant_type'', js ''authorization_code''),
               (''code_verifier'', strOf (codeVerifier options)),
               (''code'', strOf (authorizationCode options))]
          \<and> (\<forall>a b c d.
                encodeURIComponent (strOf (clientId options)) = Inr a
              \<and> encodeURIComponent (strOf (redirectUri options)) = Inr b
              \<and> encodeURIComponent (strOf (codeVerifier options)) = Inr c
              \<and> encodeURIComponent (strOf (authorizationCode options)) = Inr d
              \<longrightarrow> getPostData options =
                    Inr (js ''client_id='' @ a @ js ''&redirect_uri='' @ b
                         @ js ''&grant_type=authorization_code&code_verifier='' @ c
                         @ js ''&code='' @ d)))
       \<and> (\<forall>k v. (k, v) \<in> set (getPostParams options) \<longrightarrow> v \<noteq> [])
       \<and> (\<forall>body. getPostData options = Inr body \<longrightarrow>
             exchangeCodeForTokens http s options urls w =
               (http \<lparr>url = tokenUrl urls, http_method = ''POST'', args = body,
                      withCredentials = False,
                      headers = [(''Content-Type'', ''application/x-www-form-urlencoded'')]\<rparr>,
                w\<lparr>trace := trace w @
                   [HttpRequest \<lparr>url = tokenUrl urls, http_method = ''POST'', args = body,
                      withCredentials = False,
                      headers = [(''Content-Type'', ''application/x-www-form-urlencoded'')]\<rparr>]\<rparr>))"
proof (intro conjI impI allI)
  fix body
  assume "getPostData options = Inr body"
  with assms show "exchangeCodeForTokens http s options urls w =
               (http \<lparr>url = tokenUrl urls, http_method = ''POST'', args = body,
                      withCredentials = False,
                      headers = [(''Content-Type'', ''application/x-www-form-urlencoded'')]\<rparr>,
                w\<lparr>trace := trace w @
                   [HttpRequest \<lparr>url = tokenUrl urls, http_method = ''POST'', args = body,
                      withCredentials = False,
                      headers = [(''Content-Type'', ''application/x-www-form-urlencoded'')]\<rparr>]\<rparr>)"
    by (simp add: exchangeCodeForTokens_def http_httpRequest_def emit_def)
next
  assume ic: "truthyStr (interactionCode options)"
  show p: "getPostParams options =
              [(''client_id'', strOf (clientId options)),
               (''redirect_uri'', strOf (redirectUri options)),
               (''grant_type'', js ''interaction_code''),
               (''code_verifier'', strOf (codeVerifier options)),
               (''interaction_code'', strOf (interactionCode options))]"
    using assms ic by (rule getPostParams_interaction)
  fix a b c d
  assume "encodeURIComponent (strOf (clientId options)) = Inr a
              \<and> encodeURIComponent (strOf (redirectUri options)) = Inr b
              \<and> encodeURIComponent (strOf (codeVerifier options)) = Inr c
              \<and> encodeURIComponent (strOf (interactionCode options)) = Inr d"
  then show "getPostData options =
                    Inr (js ''client_id='' @ a @ js ''&redirect_uri='' @ b
                         @ js ''&grant_type=interaction_code&code_verifier='' @ c
                         @ js ''&interaction_code='' @ d)"
    by (simp add: getPostData_def toQueryString_def p encodeURIComponent_grant_types)
       (simp add: js_def)
next
  assume nic: "\<not> truthyStr (interactionCode options)"
  with assms show "truthyStr (authorizationCode options)"
    by (simp add: validateOptions_Inr_iff)
  show p: "getPostParams options =
              [(''client_id'', strOf (clientId options)),
               (''redirect_uri'', strOf (redirectUri options)),
               (''grant_type'', js ''authorization_code''),
               (''code_verifier'', strOf (codeVerifier options)),
               (''code'', strOf (authorizationCode options))]"
    using assms nic by (rule getPostParams_authorization)
  fix a b c d
  assume "encodeURIComponent (strOf (clientId options)) = Inr a
              \<and> encodeURIComponent (strOf (redirectUri options)) = Inr b
              \<and> encodeURIComponent (strOf (codeVerifier options)) = Inr c
              \<and> encodeURIComponent (strOf (authorizationCode options)) = Inr d"
  then show "getPostData options =
                    Inr (js ''client_id='' @ a @ js ''&redirect_uri='' @ b
                         @ js ''&grant_type=authorization_code&code_verifier='' @ c
                         @ js ''&code='' @ d)"
    by (simp add: getPostData_def toQueryString_def p encodeURIComponent_grant_types)
       (simp add: js_def)
next
  fix k v
  assume kv: "(k, v) \<in> set (getPostParams options)"
  show "v \<noteq> []"
  proof (cases "truthyStr (interactionCode options)")
    case True
    with assms kv show ?thesis
      by (auto simp: getPostParams_interaction validateOptions_Inr_iff js_def dest: truthyStr_strOf)
  next
    case False
    with assms kv show ?thesis
      by (auto simp: getPostParams_authorization validateOptions_Inr_iff js_def dest: truthyStr_strOf)
  qed
qed

theorem getPostData_body_witness:
  "validateOptions \<lparr>clientId = Some (js ''abc''), redirectUri = Some (js ''https://app/cb''),
      authorizationCode = Some (js ''code123''), interactionCode = None,
      codeVerifier = Some (js ''v1'')\<rparr> = Inr ()
   \<and> getPostData \<lparr>clientId = Some (js ''abc''), redirectUri = Some (js ''https://app/cb''),
      authorizationCode = Some (js ''code123''), interactionCode = None,
      codeVerifier = Some (js ''v1'')\<rparr>
     = Inr (js ''client_id=abc&redirect_uri=https%3A%2F%2Fapp%2Fcb&grant_type=authorization_code&code_verifier=v1&code=code123'')
   \<and> validateOptions \<lparr>clientId = Some (js ''abc''), redirectUri = Some (js ''https://app/cb''),
      authorizationCode = Some (js ''code123''), interactionCode = Some (js ''ic9''),
      codeVerifier = Some (js ''v1'')\<rparr> = Inr ()
   \<and> getPostData \<lparr>clientId = Some (js ''abc''), redirectUri = Some (js ''https://app/cb''),
      authorizationCode = Some (js ''code123''), interactionCode = Some (js ''ic9''),
      codeVerifier = Some (js ''v1'')\<rparr>
     = Inr (js ''client_id=abc&redirect_uri=https%3A%2F%2Fapp%2Fcb&grant_type=interaction_code&code_verifier=v1&interaction_code=ic9'')"
proof -
  have v1: "validateOptions \<lparr>clientId = Some (js ''abc''), redirectUri = Some (js ''https://app/cb''),
      authorizationCode = Some (js ''code123''), interactionCode = None,
      codeVerifier = Some (js ''v1'')\<rparr> = Inr ()"
    by (simp add: validateOptions_def)
  have v2: "validateOptions \<lparr>clientId = Some (js ''abc''), redirectUri = Some (js ''https://app/cb''),
      authorizationCode = Some (js ''code123''), interactionCode = Some (js ''ic9''),
      codeVerifier = Some (js ''v1'')\<rparr> = Inr ()"
    by (simp add: validateOptions_def)
  have e: "encodeURIComponent (js ''abc'') = Inr (js ''abc'')"
    "encodeURIComponent (js ''https://app/cb'') = Inr (js ''https%3A%2F%2Fapp%2Fcb'')"
    "encodeURIComponent (js ''v1'') = Inr (js ''v1'')"
    "encodeURIComponent (js ''code123'') = Inr (js ''code123'')"
    "encodeURIComponent (js ''ic9'') = Inr (js ''ic9'')"
    by (simp_all add: js_def ch_def uriUnreserved_def isHighSurrogate_def isLowSurrogate_def
        pctEscapes_def pctEscape_def utf8_def hexDigitsUpper_def)
  have b1: "getPostData \<lparr>clientId = Some (js ''abc''), redirectUri = Some (js ''https://app/cb''),
      authorizationCode = Some (js ''code123''), interactionCode = None,
      codeVerifier = Some (js ''v1'')\<rparr>
     = Inr (js ''client_id='' @ js ''abc'' @ js ''&redirect_uri='' @ js ''https%3A%2F%2Fapp%2Fcb''
            @ js ''&grant_type=authorization_code&code_verifier='' @ js ''v1''
            @ js ''&code='' @ js ''code123'')"
    using getPostData_body [OF v1, THEN conjunct2, THEN conjunct1] by (simp add: e)
  have b2: "getPostData \<lparr>clientId = Some (js ''abc''), redirectUri = Some (js ''https://app/cb''),
      authorizationCode = Some (js ''code123''), interactionCode = Some (js ''ic9''),
      codeVerifier = Some (js ''v1'')\<rparr>
     = Inr (js ''client_id='' @ js ''abc'' @ js ''&redirect_uri='' @ js ''https%3A%2F%2Fapp%2Fcb''
            @ js ''&grant_type=interaction_code&code_verifier='' @ js ''v1''
            @ js ''&interaction_code='' @ js ''ic9'')"
    using getPostData_body [OF v2, THEN conjunct1] by (simp add: e)
  show ?thesis
    unfolding b1 b2 v1 v2 by (simp add: js_def)
qed

section \<open>Verifier Generator: properties\<close>

lemma toString16_nonempty: "toString16 n \<noteq> []"
  by (induction n rule: toString16.induct) (subst toString16.simps, simp)

lemma toString16_hex: "set (toString16 n) \<subseteq> set hexDigitsLower"
proof (induction n rule: toString16.induct)
  case (1 n)
  have len: "length hexDigitsLower = 16"
    by (simp add: hexDigitsLower_def)
  show ?case
  proof (cases "n < 16")
    case True
    then have "hexDigitsLower ! n \<in> set hexDigitsLower"
      using len by (simp del: toString16.simps)
    with True show ?thesis
      by (subst toString16.simps) simp
  next
    case False
    have "hexDigitsLower ! (n mod 16) \<in> set hexDigitsLower"
      using len by simp
    with False "1.IH" show ?thesis
      by (subst toString16.simps) simp
  qed
qed

lemma substrFromEnd_length: "k \<le> length s \<Longrightarrow> length (substrFromEnd k s) = k"
  by (simp add: substrFromEnd_def)

lemma set_js: "set (js s) = ch ` set s"
  by (simp add: js_def)

lemma dec2hex_length: "length (dec2hex n) = 2"
proof -
  have "2 \<le> length (''0'' @ toString16 n)"
    using toString16_nonempty [of n] by (cases "toString16 n") (simp_all del: toString16.simps)
  then show ?thesis
    by (simp add: dec2hex_def js_def substrFromEnd_length del: toString16.simps)
qed

lemma dec2hex_hex: "set (dec2hex n) \<subseteq> set (js hexDigitsLower)"
proof -
  have "set (''0'' @ toString16 n) \<subseteq> set hexDigitsLower"
    using toString16_hex [of n] by (simp add: hexDigitsLower_def del: toString16.simps)
  moreover have "set (substrFromEnd 2 (''0'' @ toString16 n)) \<subseteq> set (''0'' @ toString16 n)"
    unfolding substrFromEnd_def by (rule set_drop_subset)
  ultimately show ?thesis
    unfolding dec2hex_def set_js by blast
qed

lemma length_concat_pairs:
  "(\<And>x. length (g x) = 2) \<Longrightarrow> length (concat (map g xs)) = 2 * length xs"
  by (induction xs) simp_all

lemma getRandomString_length: "length (getRandomString rnd n) = n"
proof -
  have "length (concat (map (\<lambda>b. dec2hex (unat b)) (getRandomValues rnd ((n + 1) div 2))))
      = 2 * ((n + 1) div 2)"
    by (simp add: length_concat_pairs dec2hex_length getRandomValues_def)
  then show ?thesis
    by (simp add: getRandomString_def Let_def)
qed

lemma getRandomString_hex: "set (getRandomString rnd n) \<subseteq> set (js hexDigitsLower)"
proof -
  have "set (concat (map (\<lambda>b. dec2hex (unat b)) xs)) \<subseteq> set (js hexDigitsLower)" for xs :: "8 word list"
    using dec2hex_hex by (induction xs) auto
  then show ?thesis
    unfolding getRandomString_def Let_def using set_take_subset by fast
qed

lemma hex_unreserved: "set (js hexDigitsLower) \<subseteq> set uriUnreserved"
  by (simp add: hexDigitsLower_def uriUnreserved_def js_def)

lemma encodeURIComponent_unreserved:
  "set s \<subseteq> set uriUnreserved \<Longrightarrow> encodeURIComponent s = Inr s"
  by (induction s) simp_all


lemma upperHex_unreserved: "n < 16 \<Longrightarrow> ch (hexDigitsUpper ! n) \<in> set uriUnreserved"
proof -
  assume "n < 16"
  moreover have "length hexDigitsUpper = 16"
    by (simp add: hexDigitsUpper_def)
  ultimately have "hexDigitsUpper ! n \<in> set hexDigitsUpper"
    by (simp only: nth_mem)
  then have "ch (hexDigitsUpper ! n) \<in> set (js hexDigitsUpper)"
    by (simp add: set_js)
  moreover have "set (js hexDigitsUpper) \<subseteq> set uriUnreserved"
    by (simp add: hexDigitsUpper_def uriUnreserved_def js_def)
  ultimately show ?thesis by blast
qed

lemma pctEscape_chars: "octet < 256 \<Longrightarrow> set (pctEscape octet) \<subseteq> uriEncoded"
  by (simp add: pctEscape_def uriEncoded_def upperHex_unreserved less_mult_imp_div_less)

lemma utf8_octets: "cp < 0x110000 \<Longrightarrow> \<forall>b \<in> set (utf8 cp). b < 256"
  by (auto simp: utf8_def)

lemma utf8_nonempty: "utf8 cp \<noteq> []"
  by (simp add: utf8_def)

lemma pctEscapes_chars: "\<forall>b \<in> set bs. b < 256 \<Longrightarrow> set (pctEscapes bs) \<subseteq> uriEncoded"
  using pctEscape_chars by (auto simp: pctEscapes_def)

lemma pctEscapes_length: "length (pctEscapes bs) = 3 * length bs"
  by (induction bs) (simp_all add: pctEscapes_def pctEscape_def)

lemma pairCodePoint_bound:
  assumes "isHighSurrogate c" and "isLowSurrogate d"
  shows "pairCodePoint c d < 0x110000"
proof -
  from assms have "unat c \<le> 0xDBFF" and "unat d \<le> 0xDFFF"
    by (simp_all add: isHighSurrogate_def isLowSurrogate_def word_le_nat_alt)
  then have "unat c - 0xD800 \<le> 0x3FF" and "unat d - 0xDC00 \<le> 0x3FF"
    by arith+
  then have "(unat c - 0xD800) * 0x400 + (unat d - 0xDC00) \<le> 0x3FF * 0x400 + 0x3FF"
    by (intro add_mono mult_le_mono1)
  then show ?thesis
    by (simp add: pairCodePoint_def)
qed

lemma utf8_pair_length:
  "length (utf8 (pairCodePoint c d)) = 4"
  by (simp add: utf8_def pairCodePoint_def)

lemma encodeURIComponent_length:
  "encodeURIComponent s = Inr r \<Longrightarrow> length s \<le> length r"
proof (induction s arbitrary: r rule: encodeURIComponent.induct)
  case 1
  then show ?case by simp
next
  case (2 c cs)
  show ?case
  proof (cases "c \<in> set uriUnreserved")
    case True
    with 2 show ?thesis
      by (auto split: sum.splits)
  next
    case unres: False
    show ?thesis
    proof (cases "isHighSurrogate c")
      case True
      with unres "2.prems" obtain d ds r' where cs: "cs = d # ds" and low: "isLowSurrogate d"
        and r': "encodeURIComponent ds = Inr r'"
        and r: "r = pctEscapes (utf8 (pairCodePoint c d)) @ r'"
        by (auto split: list.splits if_splits sum.splits)
      from "2.IH"(2) [OF unres True cs low r'] have "length ds \<le> length r'" .
      then show ?thesis
        by (simp add: cs r pctEscapes_length utf8_pair_length)
    next
      case False
      with unres "2.prems" obtain r' where low: "\<not> isLowSurrogate c"
        and r': "encodeURIComponent cs = Inr r'"
        and r: "r = pctEscapes (utf8 (unat c)) @ r'"
        by (auto split: if_splits sum.splits)
      from "2.IH"(3) [OF unres False low r'] have "length cs \<le> length r'" .
      moreover have "1 \<le> length (utf8 (unat c))"
        using utf8_nonempty [of "unat c"] by (cases "utf8 (unat c)") simp_all
      ultimately show ?thesis
        by (simp add: r pctEscapes_length)
    qed
  qed
qed

lemma encodeURIComponent_chars:
  "encodeURIComponent s = Inr r \<Longrightarrow> set r \<subseteq> uriEncoded"
proof (induction s arbitrary: r rule: encodeURIComponent.induct)
  case 1
  then show ?case by simp
next
  case (2 c cs)
  show ?case
  proof (cases "c \<in> set uriUnreserved")
    case True
    with "2.prems" obtain r' where r': "encodeURIComponent cs = Inr r'" and r: "r = c # r'"
      by (auto split: sum.splits)
    from "2.IH"(1) [OF True r'] True show ?thesis
      by (simp add: r uriEncoded_def)
  next
    case unres: False
    show ?thesis
    proof (cases "isHighSurrogate c")
      case True
      with unres "2.prems" obtain d ds r' where cs: "cs = d # ds" and low: "isLowSurrogate d"
        and r': "encodeURIComponent ds = Inr r'"
        and r: "r = pctEscapes (utf8 (pairCodePoint c d)) @ r'"
        by (auto split: list.splits if_splits sum.splits)
      from "2.IH"(2) [OF unres True cs low r'] have "set r' \<subseteq> uriEncoded" .
      moreover have "set (pctEscapes (utf8 (pairCodePoint c d))) \<subseteq> uriEncoded"
        by (intro pctEscapes_chars utf8_octets pairCodePoint_bound True low)
      ultimately show ?thesis
        by (simp add: r)
    next
      case False
      with unres "2.prems" obtain r' where low: "\<not> isLowSurrogate c"
        and r': "encodeURIComponent cs = Inr r'"
        and r: "r = pctEscapes (utf8 (unat c)) @ r'"
        by (auto split: if_splits sum.splits)
      from "2.IH"(3) [OF unres False low r'] have "set r' \<subseteq> uriEncoded" .
      moreover have "unat c < 0x110000"
        using unsigned_less [of c, where ?'a = nat] by simp
      then have "set (pctEscapes (utf8 (unat c))) \<subseteq> uriEncoded"
        by (intro pctEscapes_chars utf8_octets)
      ultimately show ?thesis
        by (simp add: r)
    qed
  qed
qed

lemma prefix_or_empty: "(if truthyStr prefix then strOf prefix else []) = strOf prefix"
  by (cases prefix) simp_all

lemma length_js: "length (js s) = length s"
  by (simp add: js_def)

lemma encodeURIComponent_no_surrogates:
  "\<forall>c \<in> set s. \<not> isHighSurrogate c \<and> \<not> isLowSurrogate c \<Longrightarrow> \<exists>r. encodeURIComponent s = Inr r"
  by (induction s) auto

lemma hex_no_surrogate:
  "c \<in> set (js hexDigitsLower) \<Longrightarrow> \<not> isHighSurrogate c \<and> \<not> isLowSurrogate c"
  by (auto simp: hexDigitsLower_def js_def ch_def isHighSurrogate_def isLowSurrogate_def)

lemma generateVerifier_returns:
  assumes "length (strOf prefix) < MIN_VERIFIER_LENGTH"
    and "\<forall>c \<in> set (strOf prefix). \<not> isHighSurrogate c \<and> \<not> isLowSurrogate c"
  shows "\<exists>v. generateVerifier rnd prefix = Inr v"
proof -
  let ?verifier = "strOf prefix @ getRandomString rnd (MIN_VERIFIER_LENGTH - length (strOf prefix))"
  have "\<forall>c \<in> set ?verifier. \<not> isHighSurrogate c \<and> \<not> isLowSurrogate c"
    using assms(2) getRandomString_hex hex_no_surrogate by (metis Un_iff set_append subsetD)
  then obtain r where "encodeURIComponent ?verifier = Inr r"
    using encodeURIComponent_no_surrogates by blast
  with assms(1) show ?thesis
    by (simp add: generateVerifier_def prefix_or_empty Let_def)
qed

text \<open>
  Claim C7, as amended. For every prefix shorter than \<open>MIN_VERIFIER_LENGTH\<close> (the omitted
  and the empty prefix included) whose characters are all unreserved, that is, left
  unchanged by \<open>encodeURIComponent\<close>, \<open>generateVerifier\<close> returns the prefix followed by
  random characters, of length exactly \<open>MIN_VERIFIER_LENGTH\<close> and made of unreserved
  characters only. The random suffix always consists of lower-case hexadecimal digits.
  For any prefix shorter than \<open>MIN_VERIFIER_LENGTH\<close>, a returned verifier has between
  \<open>MIN_VERIFIER_LENGTH\<close> and \<open>MAX_VERIFIER_LENGTH\<close> characters, all unreserved or \<open>%\<close>,
  and a verifier is returned whenever the prefix holds no surrogate code unit.
\<close>

theorem generateVerifier_short_prefix:
  assumes "length (strOf prefix) < MIN_VERIFIER_LENGTH"
  shows "(set (strOf prefix) \<subseteq> set uriUnreserved \<longrightarrow>
            generateVerifier rnd prefix =
              Inr (strOf prefix @ getRandomString rnd (MIN_VERIFIER_LENGTH - length (strOf prefix)))
          \<and> length (strOf prefix @ getRandomString rnd (MIN_VERIFIER_LENGTH - length (strOf prefix)))
              = MIN_VERIFIER_LENGTH
          \<and> set (strOf prefix @ getRandomString rnd (MIN_VERIFIER_LENGTH - length (strOf prefix)))
              \<subseteq> set uriUnreserved)
       \<and> length (getRandomString rnd (MIN_VERIFIER_LENGTH - length (strOf prefix)))
              = MIN_VERIFIER_LENGTH - length (strOf prefix)
       \<and> set (getRandomString rnd (MIN_VERIFIER_LENGTH - length (strOf prefix)))
              \<subseteq> set (js hexDigitsLower)
       \<and> (\<forall>v. generateVerifier rnd prefix = Inr v \<longrightarrow>
              MIN_VERIFIER_LENGTH \<le> length v \<and> length v \<le> MAX_VERIFIER_LENGTH
              \<and> set v \<subseteq> uriEncoded)
       \<and> ((\<forall>c \<in> set (strOf prefix). \<not> isHighSurrogate c \<and> \<not> isLowSurrogate c)
            \<longrightarrow> (\<exists>v. generateVerifier rnd prefix = Inr v))"
proof (intro conjI impI allI)
  let ?suffix = "getRandomString rnd (MIN_VERIFIER_LENGTH - length (strOf prefix))"
  let ?verifier = "strOf prefix @ ?suffix"
  have len: "length ?verifier = MIN_VERIFIER_LENGTH"
    using assms by (simp add: getRandomString_length)
  have gen: "generateVerifier rnd prefix =
      (case encodeURIComponent ?verifier of Inl e \<Rightarrow> Inl e
       | Inr encoded \<Rightarrow> Inr (take MAX_VERIFIER_LENGTH encoded))"
    using assms by (simp add: generateVerifier_def prefix_or_empty Let_def)
  show "length ?suffix = MIN_VERIFIER_LENGTH - length (strOf prefix)"
    by (rule getRandomString_length)
  show hex: "set ?suffix \<subseteq> set (js hexDigitsLower)"
    by (rule getRandomString_hex)
  {
    assume p: "set (strOf prefix) \<subseteq> set uriUnreserved"
    show "length ?verifier = MIN_VERIFIER_LENGTH"
      by (rule len)
    show u: "set ?verifier \<subseteq> set uriUnreserved"
      using p hex hex_unreserved by auto
    have enc: "encodeURIComponent ?verifier = Inr ?verifier"
      using u by (rule encodeURIComponent_unreserved)
    have "take MAX_VERIFIER_LENGTH ?verifier = ?verifier"
      using len by (simp add: MIN_VERIFIER_LENGTH_def MAX_VERIFIER_LENGTH_def)
    then show "generateVerifier rnd prefix = Inr ?verifier"
      unfolding gen enc by simp
  }
  fix v
  assume v: "generateVerifier rnd prefix = Inr v"
  then obtain encoded where enc: "encodeURIComponent ?verifier = Inr encoded"
    and v_eq: "v = take MAX_VERIFIER_LENGTH encoded"
    by (auto simp: gen split: sum.splits)
  from encodeURIComponent_length [OF enc] len have "MIN_VERIFIER_LENGTH \<le> length encoded"
    by simp
  then show "MIN_VERIFIER_LENGTH \<le> length v"
    by (simp add: v_eq MIN_VERIFIER_LENGTH_def MAX_VERIFIER_LENGTH_def)
  show "length v \<le> MAX_VERIFIER_LENGTH"
    by (simp add: v_eq)
  show "set v \<subseteq> uriEncoded"
    using encodeURIComponent_chars [OF enc] set_take_subset [of MAX_VERIFIER_LENGTH encoded]
    unfolding v_eq by blast
next
  assume "\<forall>c \<in> set (strOf prefix). \<not> isHighSurrogate c \<and> \<not> isLowSurrogate c"
  with assms show "\<exists>v. generateVerifier rnd prefix = Inr v"
    by (rule generateVerifier_returns)
qed

theorem generateVerifier_short_prefix_witness:
  "length (strOf None) < MIN_VERIFIER_LENGTH
   \<and> generateVerifier of_nat None = Inr (js ''000102030405060708090a0b0c0d0e0f10111213141'')
   \<and> length (js ''000102030405060708090a0b0c0d0e0f10111213141'') = MIN_VERIFIER_LENGTH"
proof -
  have h: "length (strOf None) < MIN_VERIFIER_LENGTH"
    by (simp add: MIN_VERIFIER_LENGTH_def)
  have r: "getRandomString of_nat 43 = js ''000102030405060708090a0b0c0d0e0f10111213141''"
    by (simp add: getRandomString_def getRandomValues_def dec2hex_def substrFromEnd_def
        hexDigitsLower_def js_def Let_def upt_rec)
  from generateVerifier_short_prefix [OF h, of of_nat] show ?thesis
    by (simp add: MIN_VERIFIER_LENGTH_def r)
qed

text \<open>
  Claim C7 as stated fails for a prefix with a character that is percent-encoded: with
  the one-space prefix the verifier has 43 characters before encoding and 45 after, the
  space having become \<open>%20\<close>. The random source here delivers the bytes 0, 1, 2, ...
\<close>

theorem generateVerifier_escaped_prefix_longer:
  "length (strOf (Some (js '' ''))) < MIN_VERIFIER_LENGTH
   \<and> generateVerifier of_nat (Some (js '' ''))
       = Inr (js ''%20000102030405060708090a0b0c0d0e0f1011121314'')
   \<and> length (js ''%20000102030405060708090a0b0c0d0e0f1011121314'') = 45
   \<and> MIN_VERIFIER_LENGTH = 43"
proof -
  have r: "getRandomString of_nat 42 = js ''000102030405060708090a0b0c0d0e0f1011121314''"
    by (simp add: getRandomString_def getRandomValues_def dec2hex_def substrFromEnd_def
        hexDigitsLower_def js_def Let_def upt_rec)
  have u: "set (js ''000102030405060708090a0b0c0d0e0f1011121314'') \<subseteq> set uriUnreserved"
    by (simp add: js_def ch_def uriUnreserved_def)
  have e: "encodeURIComponent (js '' '' @ js ''000102030405060708090a0b0c0d0e0f1011121314'')
      = Inr (js ''%20'' @ js ''000102030405060708090a0b0c0d0e0f1011121314'')"
  proof -
    have sp: "js '' '' = [0x20]"
      by (simp add: js_def ch_def)
    have nu: "(0x20 :: jschar) \<notin> set uriUnreserved"
      by (simp add: uriUnreserved_def js_def ch_def)
    have surr: "\<not> isHighSurrogate 0x20" "\<not> isLowSurrogate 0x20"
      by (simp_all add: isHighSurrogate_def isLowSurrogate_def)
    have esc: "pctEscapes (utf8 32) = js ''%20''"
      by (simp add: pctEscapes_def pctEscape_def utf8_def hexDigitsUpper_def js_def)
    show ?thesis
      using encodeURIComponent_unreserved [OF u] by (simp add: sp nu surr esc)
  qed
  have "generateVerifier of_nat (Some (js '' ''))
      = Inr (take MAX_VERIFIER_LENGTH (js ''%20'' @ js ''000102030405060708090a0b0c0d0e0f1011121314''))"
    by (simp add: generateVerifier_def Let_def MIN_VERIFIER_LENGTH_def length_js r e)
  then show ?thesis
    by (simp add: MIN_VERIFIER_LENGTH_def MAX_VERIFIER_LENGTH_def js_def)
qed

section \<open>Challenge Deriver: properties\<close>

lemma b64digit_alphabet: "n < 64 \<Longrightarrow> b64digit n \<in> set (js base64Alphabet)"
proof -
  assume "n < 64"
  moreover have "length base64Alphabet = 64"
    by (simp add: base64Alphabet_def)
  ultimately have "base64Alphabet ! n \<in> set base64Alphabet"
    by (simp only: nth_mem)
  then show ?thesis
    by (simp add: b64digit_def js_def)
qed

lemma pad_not_in_alphabet: "ch CHR ''='' \<notin> set (js base64Alphabet)"
  by (simp add: base64Alphabet_def js_def ch_def)

text \<open>Base64 of octets is a run of alphabet characters followed by at most two \<open>=\<close>.\<close>

lemma base64_shape:
  "\<forall>a \<in> set bs. a < 256 \<Longrightarrow>
   \<exists>xs k. base64 bs = xs @ replicate k (ch CHR ''='') \<and> set xs \<subseteq> set (js base64Alphabet)"
proof (induction bs rule: base64.induct)
  case 1
  show ?case by simp
next
  case (2 a)
  then have "a div 4 < 64" "(a mod 4) * 16 < 64"
    by simp_all
  then have "set [b64digit (a div 4), b64digit ((a mod 4) * 16)] \<subseteq> set (js base64Alphabet)"
    by (simp add: b64digit_alphabet)
  moreover have "base64 [a] = [b64digit (a div 4), b64digit ((a mod 4) * 16)] @ replicate 2 (ch CHR ''='')"
    by (simp add: numeral_2_eq_2)
  ultimately show ?case by blast
next
  case (3 a b)
  then have "a div 4 < 64" "(a mod 4) * 16 + b div 16 < 64" "(b mod 16) * 4 < 64"
    by simp_all arith+
  then have "set [b64digit (a div 4), b64digit ((a mod 4) * 16 + b div 16), b64digit ((b mod 16) * 4)]
      \<subseteq> set (js base64Alphabet)"
    by (simp add: b64digit_alphabet)
  moreover have "base64 [a, b] =
      [b64digit (a div 4), b64digit ((a mod 4) * 16 + b div 16), b64digit ((b mod 16) * 4)]
      @ replicate 1 (ch CHR ''='')"
    by simp
  ultimately show ?case by blast
next
  case (4 a b c rest)
  then obtain xs k where rest: "base64 rest = xs @ replicate k (ch CHR ''='')"
    and xs: "set xs \<subseteq> set (js base64Alphabet)"
    by auto
  from "4.prems" have "a div 4 < 64" "(a mod 4) * 16 + b div 16 < 64"
    "(b mod 16) * 4 + c div 64 < 64" "c mod 64 < 64"
    by simp_all arith+
  then have "set ([b64digit (a div 4), b64digit ((a mod 4) * 16 + b div 16),
      b64digit ((b mod 16) * 4 + c div 64), b64digit (c mod 64)] @ xs) \<subseteq> set (js base64Alphabet)"
    using xs by (simp add: b64digit_alphabet)
  moreover have "base64 (a # b # c # rest) =
      ([b64digit (a div 4), b64digit ((a mod 4) * 16 + b div 16),
        b64digit ((b mod 16) * 4 + c div 64), b64digit (c mod 64)] @ xs) @ replicate k (ch CHR ''='')"
    by (simp add: rest)
  ultimately show ?case by blast
qed

lemma dropWhile_replicate_append:
  "P x \<Longrightarrow> dropWhile P (replicate k x @ ys) = dropWhile P ys"
  by (induction k) simp_all

lemma dropWhile_absent: "x \<notin> set ys \<Longrightarrow> dropWhile (\<lambda>c. c = x) ys = ys"
  by (cases ys) auto

lemma stripPadding_run:
  assumes "ch CHR ''='' \<notin> set xs"
  shows "stripPadding (xs @ replicate k (ch CHR ''='')) = xs"
proof -
  from assms have "ch CHR ''='' \<notin> set (rev xs)"
    by simp
  then have "dropWhile (\<lambda>c. c = ch CHR ''='') (rev xs) = rev xs"
    by (rule dropWhile_absent)
  then have "dropWhile (\<lambda>c. c = ch CHR ''='') (replicate k (ch CHR ''='') @ rev xs) = rev xs"
    by (simp only: dropWhile_replicate_append)
  then show ?thesis
    by (simp add: stripPadding_def)
qed

lemma base64ToBase64Url_alphabet:
  assumes "b64 = xs @ replicate k (ch CHR ''='')" and "set xs \<subseteq> set (js base64Alphabet)"
  shows "set (base64ToBase64Url b64) \<inter> base64UrlForbidden = {}"
proof -
  let ?f = "\<lambda>c. if c = ch CHR ''/'' then ch CHR ''_'' else c"
  let ?g = "\<lambda>c. if c = ch CHR ''+'' then ch CHR ''-'' else c"
  let ?ys = "map ?f (map ?g xs)"
  have chars: "ch CHR ''='' \<noteq> ch CHR ''+''" "ch CHR ''='' \<noteq> ch CHR ''/''"
    "ch CHR ''-'' \<noteq> ch CHR ''/''" "ch CHR ''-'' \<noteq> ch CHR ''+''" "ch CHR ''-'' \<noteq> ch CHR ''=''"
    "ch CHR ''_'' \<noteq> ch CHR ''+''" "ch CHR ''_'' \<noteq> ch CHR ''=''" "ch CHR ''_'' \<noteq> ch CHR ''/''"
    by (simp_all add: ch_def)
  have eq: "replaceAll (ch CHR ''/'') (ch CHR ''_'') (replaceAll (ch CHR ''+'') (ch CHR ''-'') b64)
      = ?ys @ replicate k (ch CHR ''='')"
    using chars by (simp add: replaceAll_def assms(1))
  have no_pad: "ch CHR ''='' \<notin> set xs"
    using assms(2) pad_not_in_alphabet by blast
  have ys: "ch CHR ''='' \<notin> set ?ys" "ch CHR ''+'' \<notin> set ?ys" "ch CHR ''/'' \<notin> set ?ys"
    using no_pad chars by auto
  have "base64ToBase64Url b64 = ?ys"
    unfolding base64ToBase64Url_def eq using ys(1) by (rule stripPadding_run)
  with ys show ?thesis
    by (simp add: base64UrlForbidden_def)
qed

lemma unat_ucast_octet: "unat (ucast (b :: 8 word) :: jschar) = unat b"
proof -
  have "unat b < 2 ^ 16"
    using unsigned_less [of b, where ?'a = nat] by simp
  then show ?thesis
    by (simp add: unsigned_ucast_eq take_bit_nat_eq_self)
qed

lemma btoa_octets: "btoa (map ucast (bs :: 8 word list)) = Inr (base64 (map unat bs))"
proof -
  have le: "(ucast (b :: 8 word) :: jschar) \<le> 0xFF" for b
    using unsigned_less [of b, where ?'a = nat]
    by (simp add: word_le_nat_alt unat_ucast_octet)
  have n: "(\<exists>c \<in> set (map ucast bs :: jschar list). 0xFF < c) = False"
    using le by (auto simp: not_less)
  have m: "map unat (map ucast bs :: jschar list) = map unat bs"
    by (simp add: unat_ucast_octet)
  show ?thesis
    unfolding btoa_def by (simp only: n m if_False)
qed

text \<open>
  Claim C8. \<open>computeChallenge\<close> is deterministic: the same verifier gives the same
  challenge, the result depending on the verifier (and the digest primitive) alone. For
  every verifier it returns a challenge, and this contains none of \<open>+\<close>, \<open>/\<close> and \<open>=\<close>.
\<close>

theorem computeChallenge_deterministic_urlsafe:
  "(v = v' \<longrightarrow> computeChallenge digest v = computeChallenge digest v')
   \<and> (\<exists>c. computeChallenge digest v = Inr c \<and> set c \<inter> base64UrlForbidden = {})"
proof
  show "v = v' \<longrightarrow> computeChallenge digest v = computeChallenge digest v'"
    by simp
  let ?bs = "digest (textEncode v)"
  have "\<forall>a \<in> set (map unat ?bs). a < 256"
    using unsigned_less [where ?'a = nat and ?'b = 8] by auto
  from base64_shape [OF this] obtain xs k
    where "base64 (map unat ?bs) = xs @ replicate k (ch CHR ''='')"
      and "set xs \<subseteq> set (js base64Alphabet)"
    by blast
  then have "set (base64ToBase64Url (base64 (map unat ?bs))) \<inter> base64UrlForbidden = {}"
    by (rule base64ToBase64Url_alphabet)
  moreover have "computeChallenge digest v = Inr (base64ToBase64Url (base64 (map unat ?bs)))"
    by (simp add: computeChallenge_def stringToBase64Url_def btoa_octets Let_def)
  ultimately show "\<exists>c. computeChallenge digest v = Inr c \<and> set c \<inter> base64UrlForbidden = {}"
    by simp
qed

theorem computeChallenge_deterministic_urlsafe_witness:
  "computeChallenge id (js ''>>>???'') = Inr (js ''Pj4-Pz8_'')
   \<and> computeChallenge id (js ''ab'') = Inr (js ''YWI'')
   \<and> set (js ''Pj4-Pz8_'') \<inter> base64UrlForbidden = {}"
proof -
  have t1: "textEncode (js ''>>>???'') = [62, 62, 62, 63, 63, 63]"
    and t2: "textEncode (js ''ab'') = [97, 98]"
    by (simp_all add: js_def ch_def isHighSurrogate_def isLowSurrogate_def utf8_def utf8Bytes_def)
  have u: "(ucast (62 :: 8 word) :: jschar) = 62" "(ucast (63 :: 8 word) :: jschar) = 63"
    "(ucast (97 :: 8 word) :: jschar) = 97" "(ucast (98 :: 8 word) :: jschar) = 98"
    by simp_all
  have b1: "btoa [62, 62, 62, 63, 63, 63] = Inr (js ''Pj4+Pz8/'')"
    and b2: "btoa [97, 98] = Inr (js ''YWI='')"
    by (simp_all add: btoa_def b64digit_def base64Alphabet_def js_def)
  have c1: "computeChallenge id (js ''>>>???'') = Inr (js ''Pj4-Pz8_'')"
    by (simp add: computeChallenge_def stringToBase64Url_def Let_def t1 u b1)
       (simp add: base64ToBase64Url_def replaceAll_def stripPadding_def js_def ch_def)
  have c2: "computeChallenge id (js ''ab'') = Inr (js ''YWI'')"
    by (simp add: computeChallenge_def stringToBase64Url_def Let_def t2 u b2)
       (simp add: base64ToBase64Url_def replaceAll_def stripPadding_def js_def ch_def)
  from computeChallenge_deterministic_urlsafe [of "js ''>>>???''" "js ''>>>???''" id]
  show ?thesis
    by (simp add: c1 c2)
qed

end
